theory Spec2Isabelle
  imports Complex_Main
begin

section \<open>The PyPortal alarm clock: data model\<close>

text \<open>
  A shallow embedding of the state machine of \<^verbatim>\<open>code.py\<close>. The module's globals and the
  fields of the four state objects are the fields of one record, threaded through every
  handler. What the handlers read from the hardware and the network during one call
  (button line, light sensor, clocks, outcome of the two network calls) is an
  environment record handed to the call.

  Readings of \<^verbatim>\<open>time.monotonic()\<close> are Python floats; they are modelled as reals, so that
  subtraction and comparison are exact. Python's truth test on such a value is kept:
  \<^verbatim>\<open>None\<close> and \<^verbatim>\<open>0.0\<close> are both false.

  Drawing (text areas, bitmaps, the splash group, backlight level, frame refresh) is
  not part of the model; these calls are taken to return normally. The calls that the
  claims speak about leave an entry in the field \<open>trace\<close>, oldest first.
\<close>

type_synonym touch_point = "int \<times> int \<times> int"

datatype state_name = Time | Mugsy | Alarm | Settings

text \<open>How a call into the network library ends: it returns, it raises \<^verbatim>\<open>RuntimeError\<close>
  (the one exception the source catches), or it raises anything else.\<close>

datatype call_outcome = Returns | Raises_RuntimeError | Raises_Other

datatype py_exception = Uncaught_Exception | AttributeError

datatype event =
    Ev_change_to_state state_name
  | Ev_exit state_name
  | Ev_enter state_name
  | Ev_get_local_time
  | Ev_fetch
  | Ev_print
  | Ev_time_text int int
  | Ev_play_file

record button =
  left_b :: int
  top_b :: int
  right_b :: int
  bottom_b :: int

record env =
  snooze_button_value :: bool
  light_value_1 :: int
  light_value_2 :: int
  get_local_time_outcome :: call_outcome
  fetch_outcome :: call_outcome
  localtime_hm :: "int \<times> int"
  monotonic :: real

record machine =
  alarm_enabled :: bool
  alarm_armed :: bool
  alarm_hour :: int
  alarm_minute :: int
  snooze_time :: "real option"
  update_time :: "real option"
  low_light :: bool
  touched :: bool
  current_state :: "state_name option"
  refresh_time :: "real option"
  weather_refresh :: "real option"
  sound_alarm_time :: "real option"
  previous_touch :: "touch_point option"
  trace :: "event list"

definition alarm_interval :: real where
  "alarm_interval = 5"

definition snooze_interval :: real where
  "snooze_interval = 600"

text \<open>The module's globals and the freshly constructed state objects, before the first
  \<^verbatim>\<open>change_to_state("time")\<close>.\<close>

definition initial_machine :: machine where
  "initial_machine =
     \<lparr>alarm_enabled = True, alarm_armed = True, alarm_hour = 23, alarm_minute = 20,
      snooze_time = None, update_time = None, low_light = False, touched = False,
      current_state = None, refresh_time = None, weather_refresh = None,
      sound_alarm_time = None, previous_touch = None, trace = []\<rparr>"

section \<open>Helpers\<close>

text \<open>Python's truth value of an optional timestamp: \<^verbatim>\<open>if snooze_time:\<close>.\<close>

definition truthy :: "real option \<Rightarrow> bool" where
  "truthy t = (case t of None \<Rightarrow> False | Some v \<Rightarrow> v \<noteq> 0)"

text \<open>The test written inline three times in \<^verbatim>\<open>Time_State.tick\<close>:
  \<^verbatim>\<open>(not last) or ((now - last) > interval)\<close>.\<close>

definition gate_open :: "real option \<Rightarrow> real \<Rightarrow> real \<Rightarrow> bool" where
  "gate_open last_fired now interval =
     (case last_fired of None \<Rightarrow> True | Some t \<Rightarrow> t = 0 \<or> now - t > interval)"

definition log_event :: "event \<Rightarrow> machine \<Rightarrow> machine" where
  "log_event ev m = m\<lparr>trace := trace m @ [ev]\<rparr>"

fun touch_in_button :: "touch_point \<Rightarrow> button \<Rightarrow> bool" where
  "touch_in_button (x, y, z) b =
     ((left_b b \<ge> x \<and> x \<ge> right_b b) \<and> (top_b b \<le> y \<and> y \<le> bottom_b b))"

definition mk_button :: "int \<Rightarrow> int \<Rightarrow> int \<Rightarrow> int \<Rightarrow> button" where
  "mk_button l t r b = \<lparr>left_b = l, top_b = t, right_b = r, bottom_b = b\<rparr>"

text \<open>\<^verbatim>\<open>Time_State.buttons\<close>, each with the state to go to.\<close>

definition time_buttons :: "(button \<times> state_name) list" where
  "time_buttons = [(mk_button 320 50 240 120, Settings), (mk_button 320 155 240 220, Mugsy)]"

text \<open>\<^verbatim>\<open>Setting_State.buttons\<close>: on, return, off, hours, minutes.\<close>

definition button_on :: button where "button_on = mk_button 320 30 240 93"
definition button_return :: button where "button_return = mk_button 320 98 240 152"
definition button_off :: button where "button_off = mk_button 320 155 240 220"
definition button_hours :: button where "button_hours = mk_button 240 0 120 240"
definition button_minutes :: button where "button_minutes = mk_button 120 0 0 240"

section \<open>Entering and leaving states\<close>

definition adjust_backlight_based_on_light :: "bool \<Rightarrow> env \<Rightarrow> machine \<Rightarrow> machine" where
  "adjust_backlight_based_on_light force e m =
     (if light_value_1 e \<le> 1000 \<and> (force \<or> \<not> low_light m) then m\<lparr>low_light := True\<rparr>
      else if force \<or> (light_value_2 e \<ge> 2000 \<and> low_light m) then m\<lparr>low_light := False\<rparr>
      else m)"

text \<open>\<^verbatim>\<open>exit\<close>: only \<^verbatim>\<open>Alarm_State\<close> overrides it, setting
  \<^verbatim>\<open>alarm_armed = bool(snooze_time)\<close>.\<close>

fun State_exit :: "state_name \<Rightarrow> machine \<Rightarrow> machine" where
  "State_exit Alarm m = (log_event (Ev_exit Alarm) m)\<lparr>alarm_armed := truthy (snooze_time m)\<rparr>"
| "State_exit s m = log_event (Ev_exit s) m"

text \<open>\<^verbatim>\<open>enter\<close>: \<^verbatim>\<open>Mugsy_State\<close> inherits the one of \<^verbatim>\<open>Time_State\<close>;
  \<^verbatim>\<open>Alarm_State\<close> stamps \<^verbatim>\<open>sound_alarm_time\<close> with a fresh clock reading.\<close>

fun State_enter :: "env \<Rightarrow> state_name \<Rightarrow> machine \<Rightarrow> machine" where
  "State_enter e Time m = adjust_backlight_based_on_light True e (log_event (Ev_enter Time) m)"
| "State_enter e Mugsy m = adjust_backlight_based_on_light True e (log_event (Ev_enter Mugsy) m)"
| "State_enter e Alarm m =
     (log_event (Ev_enter Alarm) m)\<lparr>sound_alarm_time := Some (monotonic e), low_light := False\<rparr>"
| "State_enter e Settings m = log_event (Ev_enter Settings) m"

definition change_to_state :: "env \<Rightarrow> state_name \<Rightarrow> machine \<Rightarrow> machine" where
  "change_to_state e name m =
     (let m0 = log_event (Ev_change_to_state name) m;
          m1 = (case current_state m0 of None \<Rightarrow> m0 | Some s \<Rightarrow> State_exit s m0);
          m2 = m1\<lparr>current_state := Some name\<rparr>
      in State_enter e name m2)"

text \<open>Module start: \<^verbatim>\<open>change_to_state("time")\<close>.\<close>

definition startup :: "env \<Rightarrow> machine" where
  "startup e = change_to_state e Time initial_machine"

section \<open>The tick handlers\<close>

text \<open>\<^verbatim>\<open>Time_State.tick\<close>, block by block. First the snooze button (active low).\<close>

definition cancel_snooze :: "env \<Rightarrow> machine \<Rightarrow> machine" where
  "cancel_snooze e m =
     (if \<not> snooze_button_value e then m\<lparr>snooze_time := None, alarm_armed := False\<rparr> else m)"

definition snooze_elapsed :: "real \<Rightarrow> machine \<Rightarrow> bool" where
  "snooze_elapsed now m =
     (case snooze_time m of None \<Rightarrow> False
      | Some s \<Rightarrow> s \<noteq> 0 \<and> now - s \<ge> snooze_interval)"

text \<open>The two network blocks. An exception other than \<^verbatim>\<open>RuntimeError\<close> leaves the
  \<^verbatim>\<open>try\<close> and ends the program. In the weather block the outcome is that of the statements
  up to the stamp \<^verbatim>\<open>self.weather_refresh = now\<close> (the fetch, the parsing of the payload,
  the icon file).\<close>

definition query_online_time :: "env \<Rightarrow> real \<Rightarrow> machine \<Rightarrow> py_exception + machine" where
  "query_online_time e now m =
     (if gate_open (refresh_time m) now 3600 then
        (case get_local_time_outcome e of
           Returns \<Rightarrow> Inr ((log_event Ev_get_local_time m)\<lparr>refresh_time := Some now\<rparr>)
         | Raises_RuntimeError \<Rightarrow> Inr (log_event Ev_print (log_event Ev_get_local_time m))
         | Raises_Other \<Rightarrow> Inl Uncaught_Exception)
      else Inr m)"

definition query_weather :: "env \<Rightarrow> real \<Rightarrow> machine \<Rightarrow> py_exception + machine" where
  "query_weather e now m =
     (if gate_open (weather_refresh m) now 600 then
        (case fetch_outcome e of
           Returns \<Rightarrow> Inr ((log_event Ev_fetch m)\<lparr>weather_refresh := Some now\<rparr>)
         | Raises_RuntimeError \<Rightarrow> Inr (log_event Ev_print (log_event Ev_fetch m))
         | Raises_Other \<Rightarrow> Inl Uncaught_Exception)
      else Inr m)"

definition update_the_time :: "env \<Rightarrow> real \<Rightarrow> machine \<Rightarrow> machine" where
  "update_the_time e now m =
     (if gate_open (update_time m) now 30 then
        (let m1 = (log_event (Ev_time_text (fst (localtime_hm e)) (snd (localtime_hm e))) m)
                    \<lparr>update_time := Some now\<rparr>
         in if \<not> truthy (snooze_time m1) then
              (if fst (localtime_hm e) * 60 + snd (localtime_hm e)
                    = alarm_hour m1 * 60 + alarm_minute m1
               then (if alarm_armed m1 then change_to_state e Alarm m1 else m1)
               else m1\<lparr>alarm_armed := alarm_enabled m1\<rparr>)
            else m1)
      else m)"

definition Time_State_tick :: "env \<Rightarrow> real \<Rightarrow> machine \<Rightarrow> py_exception + machine" where
  "Time_State_tick e now m =
     (let m1 = cancel_snooze e m in
      if snooze_elapsed now m1 then Inr (change_to_state e Alarm m1)
      else
        (case query_online_time e now (adjust_backlight_based_on_light False e m1) of
           Inl x \<Rightarrow> Inl x
         | Inr m3 \<Rightarrow>
             (case query_weather e now m3 of
                Inl x \<Rightarrow> Inl x
              | Inr m4 \<Rightarrow> Inr (update_the_time e now m4))))"

definition Mugsy_State_tick :: "env \<Rightarrow> real \<Rightarrow> machine \<Rightarrow> machine" where
  "Mugsy_State_tick e now m = change_to_state e Time m"

definition Alarm_State_tick :: "env \<Rightarrow> real \<Rightarrow> machine \<Rightarrow> machine" where
  "Alarm_State_tick e now m =
     (if \<not> snooze_button_value e then change_to_state e Time (m\<lparr>snooze_time := Some now\<rparr>)
      else
        (case sound_alarm_time m of
           None \<Rightarrow> m
         | Some s \<Rightarrow>
             if s \<noteq> 0 \<and> now - s > alarm_interval
             then log_event Ev_play_file (m\<lparr>sound_alarm_time := Some now\<rparr>)
             else m))"

text \<open>\<^verbatim>\<open>Setting_State\<close> keeps the \<^verbatim>\<open>tick\<close> of the base class, which does nothing.\<close>

definition Setting_State_tick :: "env \<Rightarrow> real \<Rightarrow> machine \<Rightarrow> machine" where
  "Setting_State_tick e now m = m"

section \<open>The touch handlers\<close>

text \<open>Each handler returns the machine and \<^verbatim>\<open>bool(t)\<close>.\<close>

fun first_button_hit :: "env \<Rightarrow> touch_point \<Rightarrow> (button \<times> state_name) list \<Rightarrow> machine \<Rightarrow> machine" where
  "first_button_hit e t [] m = m"
| "first_button_hit e t ((b, nxt) # bs) m =
     (if touch_in_button t b then change_to_state e nxt m else first_button_hit e t bs m)"

definition Time_State_touch ::
  "env \<Rightarrow> touch_point option \<Rightarrow> bool \<Rightarrow> machine \<Rightarrow> machine \<times> bool" where
  "Time_State_touch e t was_touched m =
     (case t of
        None \<Rightarrow> (m, False)
      | Some p \<Rightarrow> (if \<not> was_touched then first_button_hit e p time_buttons m else m, True))"

definition Alarm_State_touch ::
  "env \<Rightarrow> touch_point option \<Rightarrow> bool \<Rightarrow> machine \<Rightarrow> machine \<times> bool" where
  "Alarm_State_touch e t was_touched m =
     (case t of
        None \<Rightarrow> (m, False)
      | Some p \<Rightarrow>
          (if \<not> was_touched then change_to_state e Time (m\<lparr>snooze_time := None\<rparr>) else m, True))"

definition Setting_State_touch ::
  "env \<Rightarrow> touch_point option \<Rightarrow> bool \<Rightarrow> machine \<Rightarrow> machine \<times> bool" where
  "Setting_State_touch e t was_touched m =
     (case t of
        None \<Rightarrow> (m\<lparr>previous_touch := None\<rparr>, False)
      | Some p \<Rightarrow>
          ((if touch_in_button p button_on then m\<lparr>alarm_enabled := True\<rparr>
            else if touch_in_button p button_return then change_to_state e Time m
            else if touch_in_button p button_off then m\<lparr>alarm_enabled := False\<rparr>
            else if alarm_enabled m then
              (case previous_touch m of
                 None \<Rightarrow> m\<lparr>previous_touch := Some p\<rparr>
               | Some q \<Rightarrow>
                   if touch_in_button p button_hours then
                     (if fst (snd p) < fst (snd q) then m\<lparr>alarm_hour := (alarm_hour m + 1) mod 24\<rparr>
                      else if fst (snd p) > fst (snd q) then m\<lparr>alarm_hour := (alarm_hour m - 1) mod 24\<rparr>
                      else m)
                   else if touch_in_button p button_minutes then
                     (if fst (snd p) < fst (snd q) then m\<lparr>alarm_minute := (alarm_minute m + 1) mod 60\<rparr>
                      else if fst (snd p) > fst (snd q) then m\<lparr>alarm_minute := (alarm_minute m - 1) mod 60\<rparr>
                      else m)
                   else m)
            else m), True))"

section \<open>The main loop\<close>

text \<open>Dispatch on \<^verbatim>\<open>current_state\<close>. Calling a method on \<^verbatim>\<open>None\<close> raises.\<close>

definition touch_dispatch ::
  "env \<Rightarrow> touch_point option \<Rightarrow> machine \<Rightarrow> py_exception + machine" where
  "touch_dispatch e t m =
     (case current_state m of
        None \<Rightarrow> Inl AttributeError
      | Some s \<Rightarrow>
          (let (m', r) =
                 (case s of
                    Time \<Rightarrow> Time_State_touch e t (touched m) m
                  | Mugsy \<Rightarrow> Time_State_touch e t (touched m) m
                  | Alarm \<Rightarrow> Alarm_State_touch e t (touched m) m
                  | Settings \<Rightarrow> Setting_State_touch e t (touched m) m)
           in Inr (m'\<lparr>touched := r\<rparr>)))"

definition tick_dispatch :: "env \<Rightarrow> real \<Rightarrow> machine \<Rightarrow> py_exception + machine" where
  "tick_dispatch e now m =
     (case current_state m of
        None \<Rightarrow> Inl AttributeError
      | Some Time \<Rightarrow> Time_State_tick e now m
      | Some Mugsy \<Rightarrow> Inr (Mugsy_State_tick e now m)
      | Some Alarm \<Rightarrow> Inr (Alarm_State_tick e now m)
      | Some Settings \<Rightarrow> Inr (Setting_State_tick e now m))"

text \<open>What one pass of \<^verbatim>\<open>while True\<close> reads: the touch point, the clock, and the
  environment of each of the two handler calls.\<close>

record inputs =
  touch_sample :: "touch_point option"
  touch_env :: env
  now_reading :: real
  tick_env :: env

definition loop_iteration :: "inputs \<Rightarrow> machine \<Rightarrow> py_exception + machine" where
  "loop_iteration i m =
     (case touch_dispatch (touch_env i) (touch_sample i) m of
        Inl x \<Rightarrow> Inl x
      | Inr m1 \<Rightarrow> tick_dispatch (tick_env i) (now_reading i) m1)"

text \<open>The loop never ends by itself; \<open>main_loop\<close> runs it over a finite prefix of its
  inputs and stops at the first uncaught exception.\<close>

fun main_loop :: "inputs list \<Rightarrow> machine \<Rightarrow> py_exception + machine" where
  "main_loop [] m = Inr m"
| "main_loop (i # rest) m =
     (case loop_iteration i m of Inl x \<Rightarrow> Inl x | Inr m' \<Rightarrow> main_loop rest m')"

section \<open>Observations on a run\<close>

text \<open>What a handler added to the trace.\<close>

definition new_events :: "machine \<Rightarrow> machine \<Rightarrow> event list" where
  "new_events m m' = drop (length (trace m)) (trace m')"

fun is_change :: "event \<Rightarrow> bool" where
  "is_change (Ev_change_to_state s) = True"
| "is_change ev = False"

text \<open>The number of calls of \<^verbatim>\<open>change_to_state\<close> so far.\<close>

definition transitions :: "machine \<Rightarrow> nat" where
  "transitions m = length (filter is_change (trace m))"

text \<open>The Timer Gate in the words of the specification, section 4.1: true if
  \<open>lastFiredAt\<close> is absent or if \<open>now - lastFiredAt >= interval\<close>. The source has no such
  function; \<open>gate_open\<close> above is what it evaluates.\<close>

definition elapsed :: "real option \<Rightarrow> real \<Rightarrow> real \<Rightarrow> bool" where
  "elapsed last_fired now interval =
     (case last_fired of None \<Rightarrow> True | Some t \<Rightarrow> now - t \<ge> interval)"

section \<open>Concrete runs\<close>

text \<open>An uneventful environment: button released, medium light, both network calls
  succeed, wall clock 10:00.\<close>

definition idle_env :: env where
  "idle_env =
     \<lparr>snooze_button_value = True, light_value_1 = 1500, light_value_2 = 1500,
      get_local_time_outcome = Returns, fetch_outcome = Returns,
      localtime_hm = (10, 0), monotonic = 50\<rparr>"

definition pushed_env :: env where
  "pushed_env = idle_env\<lparr>snooze_button_value := False\<rparr>"

text \<open>Both network calls fail with \<^verbatim>\<open>RuntimeError\<close>; the weather block raises something
  else (a payload that does not parse, a missing icon file).\<close>

definition failing_env :: env where
  "failing_env = idle_env\<lparr>get_local_time_outcome := Raises_RuntimeError,
     fetch_outcome := Raises_RuntimeError\<rparr>"

definition broken_payload_env :: env where
  "broken_payload_env = idle_env\<lparr>fetch_outcome := Raises_Other\<rparr>"

text \<open>The machine after start-up, after the alarm went off at clock reading 100, and
  after the snooze button was then pushed on the tick at 100.\<close>

definition clock_machine :: machine where
  "clock_machine = startup idle_env"

definition alarm_machine :: machine where
  "alarm_machine = change_to_state (idle_env\<lparr>monotonic := 100\<rparr>) Alarm clock_machine"

definition snoozed_machine :: machine where
  "snoozed_machine = Alarm_State_tick pushed_env 100 alarm_machine"

text \<open>A finger put on the settings button of the clock screen, and kept there.\<close>

definition held_touch :: touch_point where
  "held_touch = (250, 100, 5000)"

definition settings_machine :: machine where
  "settings_machine = projr (touch_dispatch idle_env (Some held_touch) clock_machine)"

text \<open>One pass of the loop with a fresh touch on the second button of the clock screen.\<close>

definition mugsy_pass :: inputs where
  "mugsy_pass =
     \<lparr>touch_sample = Some (250, 160, 5000), touch_env = idle_env,
      now_reading = 60, tick_env = idle_env\<rparr>"

text \<open>A pass without touch and with the button released.\<close>

definition quiet_pass :: "real \<Rightarrow> inputs" where
  "quiet_pass t =
     \<lparr>touch_sample = None, touch_env = idle_env, now_reading = t, tick_env = idle_env\<rparr>"

text \<open>In the settings screen with the finger still down, in the middle of a drag that
  began at height 100 in the minutes zone.\<close>

definition dragging_machine :: machine where
  "dragging_machine =
     settings_machine\<lparr>alarm_minute := 59, previous_touch := Some (60, 100, 5000)\<rparr>"

text \<open>A pass of the loop without touch, with the button released and without an uncaught
  exception in the two network blocks.\<close>

definition undisturbed :: "inputs \<Rightarrow> bool" where
  "undisturbed i \<longleftrightarrow>
     touch_sample i = None \<and> snooze_button_value (tick_env i) \<and>
     get_local_time_outcome (tick_env i) \<noteq> Raises_Other \<and>
     fetch_outcome (tick_env i) \<noteq> Raises_Other"

section \<open>Field by field: what entering, leaving and changing state touch\<close>

lemma State_exit_fields:
  "current_state (State_exit s m) = current_state m"
  "snooze_time (State_exit s m) = snooze_time m"
  "alarm_enabled (State_exit s m) = alarm_enabled m"
  "alarm_hour (State_exit s m) = alarm_hour m"
  "alarm_minute (State_exit s m) = alarm_minute m"
  "update_time (State_exit s m) = update_time m"
  "refresh_time (State_exit s m) = refresh_time m"
  "weather_refresh (State_exit s m) = weather_refresh m"
  "previous_touch (State_exit s m) = previous_touch m"
  "touched (State_exit s m) = touched m"
  "sound_alarm_time (State_exit s m) = sound_alarm_time m"
  "alarm_armed (State_exit s m) = (if s = Alarm then truthy (snooze_time m) else alarm_armed m)"
  "trace (State_exit s m) = trace m @ [Ev_exit s]"
  by (cases s; simp add: log_event_def)+

lemma adjust_backlight_fields:
  "current_state (adjust_backlight_based_on_light f e m) = current_state m"
  "snooze_time (adjust_backlight_based_on_light f e m) = snooze_time m"
  "alarm_enabled (adjust_backlight_based_on_light f e m) = alarm_enabled m"
  "alarm_armed (adjust_backlight_based_on_light f e m) = alarm_armed m"
  "alarm_hour (adjust_backlight_based_on_light f e m) = alarm_hour m"
  "alarm_minute (adjust_backlight_based_on_light f e m) = alarm_minute m"
  "update_time (adjust_backlight_based_on_light f e m) = update_time m"
  "refresh_time (adjust_backlight_based_on_light f e m) = refresh_time m"
  "weather_refresh (adjust_backlight_based_on_light f e m) = weather_refresh m"
  "previous_touch (adjust_backlight_based_on_light f e m) = previous_touch m"
  "touched (adjust_backlight_based_on_light f e m) = touched m"
  "sound_alarm_time (adjust_backlight_based_on_light f e m) = sound_alarm_time m"
  "trace (adjust_backlight_based_on_light f e m) = trace m"
  by (simp_all add: adjust_backlight_based_on_light_def)

lemma State_enter_fields:
  "current_state (State_enter e s m) = current_state m"
  "snooze_time (State_enter e s m) = snooze_time m"
  "alarm_enabled (State_enter e s m) = alarm_enabled m"
  "alarm_armed (State_enter e s m) = alarm_armed m"
  "alarm_hour (State_enter e s m) = alarm_hour m"
  "alarm_minute (State_enter e s m) = alarm_minute m"
  "update_time (State_enter e s m) = update_time m"
  "refresh_time (State_enter e s m) = refresh_time m"
  "weather_refresh (State_enter e s m) = weather_refresh m"
  "previous_touch (State_enter e s m) = previous_touch m"
  "touched (State_enter e s m) = touched m"
  "sound_alarm_time (State_enter e s m) =
     (if s = Alarm then Some (monotonic e) else sound_alarm_time m)"
  "trace (State_enter e s m) = trace m @ [Ev_enter s]"
  by (cases s; simp add: log_event_def adjust_backlight_fields)+

lemma change_to_state_fields:
  "current_state (change_to_state e n m) = Some n"
  "snooze_time (change_to_state e n m) = snooze_time m"
  "alarm_enabled (change_to_state e n m) = alarm_enabled m"
  "alarm_hour (change_to_state e n m) = alarm_hour m"
  "alarm_minute (change_to_state e n m) = alarm_minute m"
  "update_time (change_to_state e n m) = update_time m"
  "refresh_time (change_to_state e n m) = refresh_time m"
  "weather_refresh (change_to_state e n m) = weather_refresh m"
  "previous_touch (change_to_state e n m) = previous_touch m"
  "touched (change_to_state e n m) = touched m"
  "sound_alarm_time (change_to_state e n m) =
     (if n = Alarm then Some (monotonic e) else sound_alarm_time m)"
  "alarm_armed (change_to_state e n m) =
     (if current_state m = Some Alarm then truthy (snooze_time m) else alarm_armed m)"
  "trace (change_to_state e n m) =
     trace m @ Ev_change_to_state n
       # (case current_state m of None \<Rightarrow> [] | Some s \<Rightarrow> [Ev_exit s]) @ [Ev_enter n]"
  by (simp_all add: change_to_state_def Let_def State_enter_fields State_exit_fields
      log_event_def split: option.split)

lemma transitions_change_to_state:
  "transitions (change_to_state e n m) = Suc (transitions m)"
  by (simp add: transitions_def change_to_state_fields split: option.split)

lemma gate_open_iff:
  "gate_open l now i \<longleftrightarrow> (l = None \<or> l = Some 0 \<or> (\<exists>t. l = Some t \<and> now - t > i))"
  by (auto simp: gate_open_def split: option.splits)

lemma snooze_elapsed_cancel_snooze:
  "snooze_elapsed now (cancel_snooze e m) \<longleftrightarrow> snooze_button_value e \<and> snooze_elapsed now m"
  by (simp add: snooze_elapsed_def cancel_snooze_def)

lemmas tick_defs = Time_State_tick_def Let_def query_online_time_def query_weather_def
  update_the_time_def

lemmas fixture_defs = idle_env_def pushed_env_def clock_machine_def alarm_machine_def
  snoozed_machine_def startup_def initial_machine_def

lemmas settings_buttons = button_on_def button_return_def button_off_def button_hours_def
  button_minutes_def mk_button_def

section \<open>The concrete machines, field by field\<close>

lemma settings_machine_eq:
  "settings_machine = (change_to_state idle_env Settings clock_machine)\<lparr>touched := True\<rparr>"
  by (simp add: settings_machine_def touch_dispatch_def clock_machine_def startup_def
      initial_machine_def change_to_state_fields Time_State_touch_def held_touch_def
      time_buttons_def mk_button_def)

lemma clock_machine_fields:
  "current_state clock_machine = Some Time"
  "snooze_time clock_machine = None"
  "refresh_time clock_machine = None"
  "weather_refresh clock_machine = None"
  "update_time clock_machine = None"
  "\<not> touched clock_machine"
  by (simp_all add: clock_machine_def startup_def initial_machine_def change_to_state_fields)

lemma alarm_machine_fields:
  "current_state alarm_machine = Some Alarm"
  "snooze_time alarm_machine = None"
  "\<not> touched alarm_machine"
  by (simp_all add: alarm_machine_def clock_machine_fields change_to_state_fields)

lemma snoozed_machine_fields:
  "current_state snoozed_machine = Some Time"
  "snooze_time snoozed_machine = Some 100"
  "alarm_armed snoozed_machine"
  by (simp_all add: fixture_defs Alarm_State_tick_def change_to_state_fields truthy_def)

lemma dragging_machine_fields:
  "current_state dragging_machine = Some Settings"
  "touched dragging_machine"
  "alarm_enabled dragging_machine"
  "alarm_minute dragging_machine = 59"
  "alarm_hour dragging_machine = 23"
  "previous_touch dragging_machine = Some (60, 100, 5000)"
  by (simp_all add: dragging_machine_def settings_machine_eq change_to_state_fields
      clock_machine_def startup_def initial_machine_def)

section \<open>The blocks of \<^verbatim>\<open>Time_State.tick\<close>\<close>

lemma transitions_simps:
  "transitions (m\<lparr>touched := b\<rparr>) = transitions m"
  "transitions (m\<lparr>snooze_time := st\<rparr>) = transitions m"
  "transitions (m\<lparr>alarm_armed := ar\<rparr>) = transitions m"
  "transitions (m\<lparr>alarm_enabled := en\<rparr>) = transitions m"
  "transitions (m\<lparr>alarm_hour := h\<rparr>) = transitions m"
  "transitions (m\<lparr>alarm_minute := mi\<rparr>) = transitions m"
  "transitions (m\<lparr>previous_touch := pt\<rparr>) = transitions m"
  "transitions (m\<lparr>update_time := ut\<rparr>) = transitions m"
  "transitions (m\<lparr>refresh_time := rt\<rparr>) = transitions m"
  "transitions (m\<lparr>weather_refresh := wr\<rparr>) = transitions m"
  "transitions (m\<lparr>sound_alarm_time := sa\<rparr>) = transitions m"
  "transitions (cancel_snooze e m) = transitions m"
  "transitions (adjust_backlight_based_on_light f e m) = transitions m"
  "transitions (log_event ev m) = (if is_change ev then Suc (transitions m) else transitions m)"
  by (simp_all add: transitions_def cancel_snooze_def adjust_backlight_fields log_event_def)

lemma query_returns:
  "get_local_time_outcome e \<noteq> Raises_Other \<Longrightarrow> \<exists>m'. query_online_time e now m = Inr m'"
  "fetch_outcome e \<noteq> Raises_Other \<Longrightarrow> \<exists>m'. query_weather e now m = Inr m'"
  by (cases "get_local_time_outcome e"; cases "fetch_outcome e";
      simp add: query_online_time_def query_weather_def)+

lemma query_fields:
  "query_online_time e now m = Inr m' \<Longrightarrow>
     snooze_time m' = snooze_time m \<and> current_state m' = current_state m \<and>
     alarm_armed m' = alarm_armed m \<and> update_time m' = update_time m"
  "query_weather e now m = Inr m' \<Longrightarrow>
     snooze_time m' = snooze_time m \<and> current_state m' = current_state m \<and>
     alarm_armed m' = alarm_armed m \<and> update_time m' = update_time m"
  by (auto simp: query_online_time_def query_weather_def log_event_def
      split: if_splits call_outcome.splits)

lemma query_online_time_transitions:
  "query_online_time e now m = Inr m' \<Longrightarrow> transitions m' = transitions m"
  by (auto simp: query_online_time_def transitions_simps split: if_splits call_outcome.splits)

lemma query_weather_transitions:
  "query_weather e now m = Inr m' \<Longrightarrow> transitions m' = transitions m"
  by (auto simp: query_weather_def transitions_simps split: if_splits call_outcome.splits)

lemma update_the_time_snooze_time:
  "snooze_time (update_the_time e now m) = snooze_time m"
  by (simp add: update_the_time_def Let_def log_event_def change_to_state_fields)

lemma update_the_time_snoozing:
  assumes "snooze_time m = Some t" and "t \<noteq> 0"
  shows "current_state (update_the_time e now m) = current_state m"
  using assms by (simp add: update_the_time_def Let_def log_event_def truthy_def)

lemma update_the_time_transitions:
  "transitions (update_the_time e now m) \<le> Suc (transitions m)"
  by (simp add: update_the_time_def Let_def transitions_simps transitions_change_to_state)

lemma update_the_time_last:
  assumes "transitions (update_the_time e now m) \<noteq> transitions m"
  shows "\<exists>mid. update_the_time e now m = change_to_state e Alarm mid \<and>
           transitions mid = transitions m"
  using assms
  by (auto simp: update_the_time_def Let_def transitions_simps split: if_splits)

text \<open>A tick that is not cut short is the composition of its blocks.\<close>

lemma Time_State_tick_blocks:
  assumes "Time_State_tick e now m = Inr m'" and "\<not> snooze_elapsed now (cancel_snooze e m)"
  obtains m3 m4 where
    "query_online_time e now (adjust_backlight_based_on_light False e (cancel_snooze e m)) = Inr m3"
    and "query_weather e now m3 = Inr m4"
    and "m' = update_the_time e now m4"
  using assms by (auto simp: Time_State_tick_def Let_def split: sum.splits)

lemma Time_State_tick_elapsed:
  assumes "snooze_button_value e" and "snooze_elapsed now m"
  shows "Time_State_tick e now m = Inr (change_to_state e Alarm m)"
  using assms by (simp add: Time_State_tick_def cancel_snooze_def)

lemma Time_State_tick_snooze_time:
  assumes "Time_State_tick e now m = Inr m'"
  shows "snooze_time m' = (if snooze_button_value e then snooze_time m else None)"
proof (cases "snooze_elapsed now (cancel_snooze e m)")
  case True
  with assms show ?thesis
    by (auto simp: Time_State_tick_def Let_def change_to_state_fields cancel_snooze_def)
next
  case False
  from assms False obtain m3 m4 where
    a: "query_online_time e now (adjust_backlight_based_on_light False e (cancel_snooze e m)) = Inr m3"
    and b: "query_weather e now m3 = Inr m4"
    and c: "m' = update_the_time e now m4"
    by (rule Time_State_tick_blocks)
  from query_fields(1) [OF a] query_fields(2) [OF b] c show ?thesis
    by (simp add: update_the_time_snooze_time adjust_backlight_fields cancel_snooze_def)
qed

lemma Time_State_tick_transitions:
  assumes "Time_State_tick e now m = Inr m'"
  shows "transitions m' \<le> Suc (transitions m)"
proof (cases "snooze_elapsed now (cancel_snooze e m)")
  case True
  with assms show ?thesis
    by (auto simp: Time_State_tick_def Let_def transitions_change_to_state transitions_simps)
next
  case False
  from assms False obtain m3 m4 where
    a: "query_online_time e now (adjust_backlight_based_on_light False e (cancel_snooze e m)) = Inr m3"
    and b: "query_weather e now m3 = Inr m4"
    and c: "m' = update_the_time e now m4"
    by (rule Time_State_tick_blocks)
  from query_online_time_transitions [OF a] query_weather_transitions [OF b]
  have "transitions m4 = transitions m" by (simp add: transitions_simps)
  with update_the_time_transitions [of e now m4] c show ?thesis by simp
qed

lemma Time_State_tick_last:
  assumes "Time_State_tick e now m = Inr m'" and "transitions m' \<noteq> transitions m"
  shows "\<exists>mid. m' = change_to_state e Alarm mid \<and> transitions mid = transitions m"
proof (cases "snooze_elapsed now (cancel_snooze e m)")
  case True
  with assms(1) have "m' = change_to_state e Alarm (cancel_snooze e m)"
    by (auto simp: Time_State_tick_def Let_def)
  then show ?thesis by (auto simp: transitions_simps)
next
  case False
  from assms(1) False obtain m3 m4 where
    a: "query_online_time e now (adjust_backlight_based_on_light False e (cancel_snooze e m)) = Inr m3"
    and b: "query_weather e now m3 = Inr m4"
    and c: "m' = update_the_time e now m4"
    by (rule Time_State_tick_blocks)
  from query_online_time_transitions [OF a] query_weather_transitions [OF b]
  have eq: "transitions m4 = transitions m" by (simp add: transitions_simps)
  with assms(2) c update_the_time_last [of e now m4] show ?thesis by auto
qed

text \<open>What a tick that reaches the two network blocks does with them.\<close>

lemma Time_State_tick_refresh:
  assumes "\<not> (snooze_button_value e \<and> snooze_elapsed now m)"
    and "gate_open (refresh_time m) now 3600 \<longrightarrow> get_local_time_outcome e \<noteq> Raises_Other"
    and "gate_open (weather_refresh m) now 600 \<longrightarrow> fetch_outcome e \<noteq> Raises_Other"
  shows "\<exists>m'. Time_State_tick e now m = Inr m' \<and>
     refresh_time m' =
       (if gate_open (refresh_time m) now 3600 \<and> get_local_time_outcome e = Returns
        then Some now else refresh_time m) \<and>
     weather_refresh m' =
       (if gate_open (weather_refresh m) now 600 \<and> fetch_outcome e = Returns
        then Some now else weather_refresh m) \<and>
     (Ev_get_local_time \<in> set (new_events m m') \<longleftrightarrow> gate_open (refresh_time m) now 3600) \<and>
     (Ev_fetch \<in> set (new_events m m') \<longleftrightarrow> gate_open (weather_refresh m) now 600) \<and>
     (Ev_print \<in> set (new_events m m') \<longleftrightarrow>
        (gate_open (refresh_time m) now 3600 \<and> get_local_time_outcome e = Raises_RuntimeError) \<or>
        (gate_open (weather_refresh m) now 600 \<and> fetch_outcome e = Raises_RuntimeError))"
proof -
  have reach: "\<not> snooze_elapsed now (cancel_snooze e m)"
    using assms(1) by (simp add: snooze_elapsed_cancel_snooze)
  show ?thesis
    using reach assms(2,3)
    unfolding tick_defs new_events_def
    by (cases "get_local_time_outcome e"; cases "fetch_outcome e")
       (auto simp: change_to_state_fields adjust_backlight_fields log_event_def cancel_snooze_def
         split: option.splits)
qed

lemma gate_open_later:
  "gate_open l now i \<Longrightarrow> now \<le> later \<Longrightarrow> gate_open l later i"
  by (auto simp: gate_open_def split: option.splits)

lemma Time_State_tick_returns:
  assumes "gate_open (refresh_time m) now 3600 \<longrightarrow> get_local_time_outcome e \<noteq> Raises_Other"
    and "gate_open (weather_refresh m) now 600 \<longrightarrow> fetch_outcome e \<noteq> Raises_Other"
  shows "\<exists>m'. Time_State_tick e now m = Inr m'"
proof (cases "snooze_button_value e \<and> snooze_elapsed now m")
  case True
  then show ?thesis using Time_State_tick_elapsed [of e now m] by simp
next
  case False
  from Time_State_tick_refresh [OF False assms] show ?thesis by blast
qed

section \<open>The clock screen: \<^verbatim>\<open>Time_State.tick\<close>\<close>

text \<open>
  Claim C1, as the code has it. Take a tick of the clock state that is not cut short by
  an elapsed snooze and in which no uncaught exception is raised, and let the
  display-update test \<^verbatim>\<open>(not update_time) or ((now - update_time) > 30)\<close> succeed. Then
  \<^verbatim>\<open>update_time\<close> is stamped, and the alarm check depends on what the same tick's button
  handling has left: while a snooze is pending the check is skipped and \<^verbatim>\<open>alarm_armed\<close>
  keeps its value; with no snooze pending, a matching minute leads to the alarm state if
  the alarm is still armed (it is not when the button is pushed on this tick), and a
  minute that does not match sets \<^verbatim>\<open>alarm_armed\<close> to \<^verbatim>\<open>alarm_enabled\<close>.
\<close>

theorem Time_State_tick_alarm_check:
  assumes "\<not> (snooze_button_value e \<and> snooze_elapsed now m)"
    and "get_local_time_outcome e \<noteq> Raises_Other"
    and "fetch_outcome e \<noteq> Raises_Other"
    and "gate_open (update_time m) now 30"
    and "current_state m = Some Time"
  shows "\<exists>m'. Time_State_tick e now m = Inr m' \<and> update_time m' = Some now \<and>
     (if snooze_button_value e \<and> truthy (snooze_time m)
      then current_state m' = Some Time \<and> alarm_armed m' = alarm_armed m
      else if fst (localtime_hm e) * 60 + snd (localtime_hm e)
                = alarm_hour m * 60 + alarm_minute m
      then (if snooze_button_value e \<and> alarm_armed m
            then current_state m' = Some Alarm
            else current_state m' = Some Time \<and> \<not> alarm_armed m')
      else current_state m' = Some Time \<and> alarm_armed m' = alarm_enabled m)"
proof -
  have reach: "\<not> snooze_elapsed now (cancel_snooze e m)"
    using assms(1) by (simp add: snooze_elapsed_cancel_snooze)
  show ?thesis
    using reach assms(2-)
    unfolding tick_defs
    by (cases "get_local_time_outcome e"; cases "fetch_outcome e")
       (auto simp: change_to_state_fields adjust_backlight_fields log_event_def cancel_snooze_def
         truthy_def split: option.splits)
qed

text \<open>The example of the specification: armed, no snooze, 23:20 fires the alarm; at 23:21
  a disarmed alarm is armed again because it is enabled.\<close>

theorem Time_State_tick_alarm_check_witness:
  "current_state (projr (Time_State_tick (idle_env\<lparr>localtime_hm := (23, 20)\<rparr>) 60 clock_machine))
     = Some Alarm \<and>
   alarm_armed (projr (Time_State_tick (idle_env\<lparr>localtime_hm := (23, 21)\<rparr>) 60
      (clock_machine\<lparr>alarm_armed := False\<rparr>)))"
  using Time_State_tick_alarm_check [of "idle_env\<lparr>localtime_hm := (23, 20)\<rparr>" 60 clock_machine]
    Time_State_tick_alarm_check [of "idle_env\<lparr>localtime_hm := (23, 21)\<rparr>" 60
      "clock_machine\<lparr>alarm_armed := False\<rparr>"]
  by (auto simp: fixture_defs change_to_state_fields snooze_elapsed_def gate_open_def truthy_def)

text \<open>With a snooze pending the minute check is not run at all: here the alarm was
  snoozed at 100 and then switched off in the settings; on the tick at 200 the display
  gate is open and the minute (10:00) does not match 23:20, yet \<^verbatim>\<open>alarm_armed\<close> stays
  true while \<^verbatim>\<open>alarm_enabled\<close> is false.\<close>

theorem rearm_skipped_counterexample:
  "gate_open (update_time (snoozed_machine\<lparr>alarm_enabled := False\<rparr>)) 200 30 \<and>
   fst (localtime_hm idle_env) * 60 + snd (localtime_hm idle_env)
     \<noteq> alarm_hour snoozed_machine * 60 + alarm_minute snoozed_machine \<and>
   Time_State_tick idle_env 200 (snoozed_machine\<lparr>alarm_enabled := False\<rparr>)
     \<noteq> Inl Uncaught_Exception \<and>
   alarm_armed (projr (Time_State_tick idle_env 200 (snoozed_machine\<lparr>alarm_enabled := False\<rparr>))) \<and>
   \<not> alarm_enabled (projr (Time_State_tick idle_env 200 (snoozed_machine\<lparr>alarm_enabled := False\<rparr>)))"
  by (simp add: fixture_defs tick_defs gate_open_def cancel_snooze_def snooze_elapsed_def
      snooze_interval_def log_event_def change_to_state_fields adjust_backlight_fields truthy_def
      Alarm_State_tick_def)

text \<open>
  Claim C4, as the code has it. On a tick of the clock state that reaches the refresh
  blocks, the time query, the weather query and the display update are each attempted
  exactly when their timestamp is absent, or is zero, or lies more than the interval
  (3600, 600, 30 seconds) before \<open>now\<close>: the comparison is strict. The test is a
  function of the timestamp, \<open>now\<close> and the interval alone, so evaluating it again with
  the same arguments gives the same answer.
\<close>

theorem Time_State_tick_gates:
  assumes "\<not> (snooze_button_value e \<and> snooze_elapsed now m)"
    and "get_local_time_outcome e \<noteq> Raises_Other"
    and "fetch_outcome e \<noteq> Raises_Other"
  shows "\<exists>m'. Time_State_tick e now m = Inr m' \<and>
     (Ev_get_local_time \<in> set (new_events m m') \<longleftrightarrow>
        (refresh_time m = None \<or> refresh_time m = Some 0 \<or>
         (\<exists>t. refresh_time m = Some t \<and> now - t > 3600))) \<and>
     (Ev_fetch \<in> set (new_events m m') \<longleftrightarrow>
        (weather_refresh m = None \<or> weather_refresh m = Some 0 \<or>
         (\<exists>t. weather_refresh m = Some t \<and> now - t > 600))) \<and>
     ((\<exists>h mi. Ev_time_text h mi \<in> set (new_events m m')) \<longleftrightarrow>
        (update_time m = None \<or> update_time m = Some 0 \<or>
         (\<exists>t. update_time m = Some t \<and> now - t > 30)))"
proof -
  have reach: "\<not> snooze_elapsed now (cancel_snooze e m)"
    using assms(1) by (simp add: snooze_elapsed_cancel_snooze)
  show ?thesis
    using reach assms(2,3)
    unfolding tick_defs new_events_def gate_open_iff[symmetric]
    by (cases "get_local_time_outcome e"; cases "fetch_outcome e")
       (auto simp: change_to_state_fields adjust_backlight_fields log_event_def cancel_snooze_def
         split: option.splits)
qed

theorem Time_State_tick_gates_witness:
  "Time_State_tick idle_env 3701 (clock_machine\<lparr>refresh_time := Some 100\<rparr>)
     \<noteq> Inl Uncaught_Exception \<and>
   Ev_get_local_time \<in> set (new_events (clock_machine\<lparr>refresh_time := Some 100\<rparr>)
      (projr (Time_State_tick idle_env 3701 (clock_machine\<lparr>refresh_time := Some 100\<rparr>)))) \<and>
   Ev_fetch \<in> set (new_events (clock_machine\<lparr>refresh_time := Some 100\<rparr>)
      (projr (Time_State_tick idle_env 3701 (clock_machine\<lparr>refresh_time := Some 100\<rparr>))))"
  using Time_State_tick_gates [of idle_env 3701 "clock_machine\<lparr>refresh_time := Some 100\<rparr>"]
  by (auto simp: idle_env_def clock_machine_def startup_def change_to_state_fields
      initial_machine_def snooze_elapsed_def)

text \<open>Exactly one interval after the last time query the gate of the specification is
  open, the test of the source is not, and the tick does not query the time: it only
  fetches the weather and updates the display.\<close>

theorem gate_strict_counterexample:
  "elapsed (refresh_time (clock_machine\<lparr>refresh_time := Some 100\<rparr>)) 3700 3600 \<and>
   \<not> gate_open (refresh_time (clock_machine\<lparr>refresh_time := Some 100\<rparr>)) 3700 3600 \<and>
   new_events (clock_machine\<lparr>refresh_time := Some 100\<rparr>)
      (projr (Time_State_tick idle_env 3700 (clock_machine\<lparr>refresh_time := Some 100\<rparr>)))
     = [Ev_fetch, Ev_time_text 10 0]"
  by (simp add: elapsed_def gate_open_def new_events_def tick_defs clock_machine_def startup_def
      initial_machine_def idle_env_def cancel_snooze_def snooze_elapsed_def log_event_def
      change_to_state_fields adjust_backlight_fields truthy_def)

text \<open>
  Claim C8, as the code has it. Take a tick of the clock state that reaches the two
  network blocks and in which no attempted block raises anything but \<^verbatim>\<open>RuntimeError\<close>,
  the one exception the two handlers catch. The tick returns. Each block is attempted
  exactly when its test succeeds; its timestamp becomes \<open>now\<close> exactly when it was
  attempted and returned, and keeps its value otherwise; a failure is logged. After a
  \<^verbatim>\<open>RuntimeError\<close> the next tick that reaches the blocks, at whatever later time, attempts
  the failed call again, and stamps it if it then returns.
\<close>

theorem Time_State_tick_transient_failure:
  assumes "\<not> (snooze_button_value e \<and> snooze_elapsed now m)"
    and "gate_open (refresh_time m) now 3600 \<longrightarrow> get_local_time_outcome e \<noteq> Raises_Other"
    and "gate_open (weather_refresh m) now 600 \<longrightarrow> fetch_outcome e \<noteq> Raises_Other"
  shows "\<exists>m'. Time_State_tick e now m = Inr m' \<and>
     refresh_time m' =
       (if gate_open (refresh_time m) now 3600 \<and> get_local_time_outcome e = Returns
        then Some now else refresh_time m) \<and>
     weather_refresh m' =
       (if gate_open (weather_refresh m) now 600 \<and> fetch_outcome e = Returns
        then Some now else weather_refresh m) \<and>
     (Ev_get_local_time \<in> set (new_events m m') \<longleftrightarrow> gate_open (refresh_time m) now 3600) \<and>
     (Ev_fetch \<in> set (new_events m m') \<longleftrightarrow> gate_open (weather_refresh m) now 600) \<and>
     (Ev_print \<in> set (new_events m m') \<longleftrightarrow>
        (gate_open (refresh_time m) now 3600 \<and> get_local_time_outcome e = Raises_RuntimeError) \<or>
        (gate_open (weather_refresh m) now 600 \<and> fetch_outcome e = Raises_RuntimeError)) \<and>
     (\<forall>e2 later.
        now \<le> later \<and> \<not> (snooze_button_value e2 \<and> snooze_elapsed later m') \<and>
        get_local_time_outcome e2 \<noteq> Raises_Other \<and> fetch_outcome e2 \<noteq> Raises_Other \<longrightarrow>
        (\<exists>m2. Time_State_tick e2 later m' = Inr m2 \<and>
           (gate_open (refresh_time m) now 3600 \<and>
            get_local_time_outcome e = Raises_RuntimeError \<longrightarrow>
              Ev_get_local_time \<in> set (new_events m' m2) \<and>
              refresh_time m2 =
                (if get_local_time_outcome e2 = Returns then Some later else refresh_time m)) \<and>
           (gate_open (weather_refresh m) now 600 \<and> fetch_outcome e = Raises_RuntimeError \<longrightarrow>
              Ev_fetch \<in> set (new_events m' m2) \<and>
              weather_refresh m2 =
                (if fetch_outcome e2 = Returns then Some later else weather_refresh m))))"
proof -
  from Time_State_tick_refresh [OF assms] obtain m' where
    tick: "Time_State_tick e now m = Inr m'"
    and rt: "refresh_time m' =
       (if gate_open (refresh_time m) now 3600 \<and> get_local_time_outcome e = Returns
        then Some now else refresh_time m)"
    and wr: "weather_refresh m' =
       (if gate_open (weather_refresh m) now 600 \<and> fetch_outcome e = Returns
        then Some now else weather_refresh m)"
    and ev: "(Ev_get_local_time \<in> set (new_events m m')) = gate_open (refresh_time m) now 3600"
      "(Ev_fetch \<in> set (new_events m m')) = gate_open (weather_refresh m) now 600"
      "(Ev_print \<in> set (new_events m m')) =
        (gate_open (refresh_time m) now 3600 \<and> get_local_time_outcome e = Raises_RuntimeError \<or>
         gate_open (weather_refresh m) now 600 \<and> fetch_outcome e = Raises_RuntimeError)"
    by blast
  have retry: "\<exists>m2. Time_State_tick e2 later m' = Inr m2 \<and>
           (gate_open (refresh_time m) now 3600 \<and>
            get_local_time_outcome e = Raises_RuntimeError \<longrightarrow>
              Ev_get_local_time \<in> set (new_events m' m2) \<and>
              refresh_time m2 =
                (if get_local_time_outcome e2 = Returns then Some later else refresh_time m)) \<and>
           (gate_open (weather_refresh m) now 600 \<and> fetch_outcome e = Raises_RuntimeError \<longrightarrow>
              Ev_fetch \<in> set (new_events m' m2) \<and>
              weather_refresh m2 =
                (if fetch_outcome e2 = Returns then Some later else weather_refresh m))"
    if later: "now \<le> later" and reach2: "\<not> (snooze_button_value e2 \<and> snooze_elapsed later m')"
      and ok2: "get_local_time_outcome e2 \<noteq> Raises_Other" "fetch_outcome e2 \<noteq> Raises_Other"
    for e2 later
  proof -
    from Time_State_tick_refresh [OF reach2] ok2 obtain m2 where
      tick2: "Time_State_tick e2 later m' = Inr m2"
      and rt2: "refresh_time m2 =
         (if gate_open (refresh_time m') later 3600 \<and> get_local_time_outcome e2 = Returns
          then Some later else refresh_time m')"
      and wr2: "weather_refresh m2 =
         (if gate_open (weather_refresh m') later 600 \<and> fetch_outcome e2 = Returns
          then Some later else weather_refresh m')"
      and ev2: "(Ev_get_local_time \<in> set (new_events m' m2)) = gate_open (refresh_time m') later 3600"
        "(Ev_fetch \<in> set (new_events m' m2)) = gate_open (weather_refresh m') later 600"
      by blast
    have g1: "gate_open (refresh_time m') later 3600 \<and> refresh_time m' = refresh_time m"
      if "gate_open (refresh_time m) now 3600" "get_local_time_outcome e = Raises_RuntimeError"
      using that rt gate_open_later [OF that(1) later] by simp
    have g2: "gate_open (weather_refresh m') later 600 \<and> weather_refresh m' = weather_refresh m"
      if "gate_open (weather_refresh m) now 600" "fetch_outcome e = Raises_RuntimeError"
      using that wr gate_open_later [OF that(1) later] by simp
    from tick2 rt2 wr2 ev2 g1 g2 show ?thesis by auto
  qed
  from tick rt wr ev retry show ?thesis by blast
qed

text \<open>Both calls fail at 60 and are logged, no timestamp is set; the tick at 61 fetches
  again and stamps both.\<close>

theorem Time_State_tick_transient_failure_witness:
  "Time_State_tick failing_env 60 clock_machine \<noteq> Inl Uncaught_Exception \<and>
   refresh_time (projr (Time_State_tick failing_env 60 clock_machine)) = None \<and>
   weather_refresh (projr (Time_State_tick failing_env 60 clock_machine)) = None \<and>
   Ev_print \<in> set (new_events clock_machine (projr (Time_State_tick failing_env 60 clock_machine))) \<and>
   Ev_fetch \<in> set (new_events (projr (Time_State_tick failing_env 60 clock_machine))
      (projr (Time_State_tick idle_env 61 (projr (Time_State_tick failing_env 60 clock_machine))))) \<and>
   refresh_time (projr (Time_State_tick idle_env 61
      (projr (Time_State_tick failing_env 60 clock_machine)))) = Some 61 \<and>
   weather_refresh (projr (Time_State_tick idle_env 61
      (projr (Time_State_tick failing_env 60 clock_machine)))) = Some 61"
proof -
  have reach: "\<not> (snooze_button_value failing_env \<and> snooze_elapsed 60 clock_machine)"
    by (simp add: snooze_elapsed_def clock_machine_fields)
  have ok: "gate_open (refresh_time clock_machine) 60 3600 \<longrightarrow>
        get_local_time_outcome failing_env \<noteq> Raises_Other"
      "gate_open (weather_refresh clock_machine) 60 600 \<longrightarrow>
        fetch_outcome failing_env \<noteq> Raises_Other"
    by (simp_all add: failing_env_def idle_env_def)
  have gates: "gate_open (refresh_time clock_machine) 60 3600"
      "gate_open (weather_refresh clock_machine) 60 600"
    by (simp_all add: gate_open_def clock_machine_fields)
  have outcomes: "get_local_time_outcome failing_env = Raises_RuntimeError"
      "fetch_outcome failing_env = Raises_RuntimeError"
      "get_local_time_outcome idle_env = Returns" "fetch_outcome idle_env = Returns"
    by (simp_all add: failing_env_def idle_env_def)
  from Time_State_tick_transient_failure [OF reach ok] obtain m' where
    tick: "Time_State_tick failing_env 60 clock_machine = Inr m'"
    and rt: "refresh_time m' =
       (if gate_open (refresh_time clock_machine) 60 3600 \<and>
           get_local_time_outcome failing_env = Returns
        then Some 60 else refresh_time clock_machine)"
    and wr: "weather_refresh m' =
       (if gate_open (weather_refresh clock_machine) 60 600 \<and> fetch_outcome failing_env = Returns
        then Some 60 else weather_refresh clock_machine)"
    and pr: "(Ev_print \<in> set (new_events clock_machine m')) =
        (gate_open (refresh_time clock_machine) 60 3600 \<and>
         get_local_time_outcome failing_env = Raises_RuntimeError \<or>
         gate_open (weather_refresh clock_machine) 60 600 \<and>
         fetch_outcome failing_env = Raises_RuntimeError)"
    and retry: "\<forall>e2 later.
        60 \<le> later \<and> \<not> (snooze_button_value e2 \<and> snooze_elapsed later m') \<and>
        get_local_time_outcome e2 \<noteq> Raises_Other \<and> fetch_outcome e2 \<noteq> Raises_Other \<longrightarrow>
        (\<exists>m2. Time_State_tick e2 later m' = Inr m2 \<and>
           (gate_open (refresh_time clock_machine) 60 3600 \<and>
            get_local_time_outcome failing_env = Raises_RuntimeError \<longrightarrow>
              Ev_get_local_time \<in> set (new_events m' m2) \<and>
              refresh_time m2 =
                (if get_local_time_outcome e2 = Returns then Some later
                 else refresh_time clock_machine)) \<and>
           (gate_open (weather_refresh clock_machine) 60 600 \<and>
            fetch_outcome failing_env = Raises_RuntimeError \<longrightarrow>
              Ev_fetch \<in> set (new_events m' m2) \<and>
              weather_refresh m2 =
                (if fetch_outcome e2 = Returns then Some later
                 else weather_refresh clock_machine)))"
    by blast
  from Time_State_tick_snooze_time [OF tick] have "snooze_time m' = None"
    by (simp add: clock_machine_fields)
  then have reach2: "\<not> (snooze_button_value idle_env \<and> snooze_elapsed 61 m')"
    by (simp add: snooze_elapsed_def)
  from retry [rule_format, of 61 idle_env] reach2 gates outcomes obtain m2 where
    "Time_State_tick idle_env 61 m' = Inr m2" "Ev_fetch \<in> set (new_events m' m2)"
    "refresh_time m2 = Some 61" "weather_refresh m2 = Some 61"
    by auto
  with tick rt wr pr gates outcomes show ?thesis
    by (simp add: clock_machine_fields)
qed

text \<open>An exception of another type raised inside the weather block is not caught: the
  tick does not return and the loop ends with it.\<close>

theorem uncaught_fetch_failure_counterexample:
  "gate_open (weather_refresh clock_machine) 60 600 \<and>
   Time_State_tick broken_payload_env 60 clock_machine = Inl Uncaught_Exception \<and>
   main_loop [(quiet_pass 60)\<lparr>tick_env := broken_payload_env\<rparr>, quiet_pass 61] clock_machine
     = Inl Uncaught_Exception"
  by (simp add: broken_payload_env_def fixture_defs quiet_pass_def loop_iteration_def
      touch_dispatch_def tick_dispatch_def Time_State_touch_def tick_defs gate_open_def
      cancel_snooze_def snooze_elapsed_def log_event_def change_to_state_fields
      adjust_backlight_fields)

text \<open>
  Claim C10. In the clock state a tick on which the button line reads active clears
  \<^verbatim>\<open>snooze_time\<close> and sets \<^verbatim>\<open>alarm_armed\<close> to false, whether or not a snooze was
  pending. The tick then stays in the clock state, and at its end the alarm is armed
  only if the same tick's minute check ran on a minute that does not match, with the
  alarm enabled. In a matching minute the alarm therefore does not fire, and it stays
  disarmed on every further tick of that minute, button held or not.
\<close>

theorem Time_State_tick_button_pushed:
  assumes "get_local_time_outcome e \<noteq> Raises_Other"
    and "fetch_outcome e \<noteq> Raises_Other"
    and "current_state m = Some Time"
  shows "(\<not> snooze_button_value e \<longrightarrow>
      cancel_snooze e m = m\<lparr>snooze_time := None, alarm_armed := False\<rparr> \<and>
      (\<exists>m'. Time_State_tick e now m = Inr m' \<and> snooze_time m' = None \<and>
         current_state m' = Some Time \<and>
         alarm_armed m' =
           (gate_open (update_time m) now 30 \<and> alarm_enabled m \<and>
            fst (localtime_hm e) * 60 + snd (localtime_hm e)
              \<noteq> alarm_hour m * 60 + alarm_minute m))) \<and>
    (fst (localtime_hm e) * 60 + snd (localtime_hm e) = alarm_hour m * 60 + alarm_minute m \<and>
     (\<not> snooze_button_value e \<or> (\<not> alarm_armed m \<and> \<not> truthy (snooze_time m))) \<longrightarrow>
      (\<exists>m'. Time_State_tick e now m = Inr m' \<and> current_state m' = Some Time \<and>
         \<not> alarm_armed m' \<and> \<not> truthy (snooze_time m')))"
  using assms
  unfolding tick_defs
  by (cases "get_local_time_outcome e"; cases "fetch_outcome e")
     (auto simp: change_to_state_fields adjust_backlight_fields log_event_def cancel_snooze_def
       snooze_elapsed_def truthy_def split: option.splits)

theorem Time_State_tick_button_pushed_witness:
  "snooze_time (projr (Time_State_tick (pushed_env\<lparr>localtime_hm := (23, 20)\<rparr>) 60 clock_machine))
     = None \<and>
   current_state (projr (Time_State_tick (pushed_env\<lparr>localtime_hm := (23, 20)\<rparr>) 60 clock_machine))
     = Some Time \<and>
   \<not> alarm_armed (projr (Time_State_tick (pushed_env\<lparr>localtime_hm := (23, 20)\<rparr>) 60 clock_machine))"
  using Time_State_tick_button_pushed [of "pushed_env\<lparr>localtime_hm := (23, 20)\<rparr>" clock_machine 60]
  by (auto simp: fixture_defs change_to_state_fields)

section \<open>The alarm screen: \<^verbatim>\<open>Alarm_State.tick\<close>\<close>

text \<open>
  Claim C7, as the code has it. Entering the alarm state stamps \<^verbatim>\<open>sound_alarm_time\<close>
  with the clock reading taken at entry. On a tick with the button released, the sound
  is played and \<^verbatim>\<open>sound_alarm_time\<close> stamped with \<open>now\<close> exactly when that timestamp is
  non-zero and lies more than 5 seconds before \<open>now\<close>; otherwise the tick changes
  nothing. So the first tick after entry is silent unless more than 5 seconds have
  passed since entry, and the alert repeats from then on.
\<close>

theorem Alarm_State_tick_sound:
  assumes "snooze_button_value e"
  shows "sound_alarm_time (change_to_state e0 Alarm m0) = Some (monotonic e0) \<and>
    (if \<exists>s. sound_alarm_time m = Some s \<and> s \<noteq> 0 \<and> now - s > 5
     then Alarm_State_tick e now m
            = m\<lparr>sound_alarm_time := Some now, trace := trace m @ [Ev_play_file]\<rparr>
     else Alarm_State_tick e now m = m)"
  using assms
  by (auto simp: Alarm_State_tick_def alarm_interval_def log_event_def change_to_state_fields
      split: option.splits)

theorem Alarm_State_tick_sound_witness:
  "new_events alarm_machine (Alarm_State_tick idle_env 106 alarm_machine) = [Ev_play_file] \<and>
   sound_alarm_time (Alarm_State_tick idle_env 106 alarm_machine) = Some 106 \<and>
   Alarm_State_tick idle_env 105 alarm_machine = alarm_machine"
  using Alarm_State_tick_sound
      [of idle_env "idle_env\<lparr>monotonic := 100\<rparr>" clock_machine alarm_machine 106]
    Alarm_State_tick_sound
      [of idle_env "idle_env\<lparr>monotonic := 100\<rparr>" clock_machine alarm_machine 105]
  by (auto simp: alarm_machine_def idle_env_def new_events_def)

text \<open>The alarm state was entered at clock reading 100; its first tick, at 101 with the
  button released, plays nothing and leaves the machine as it was.\<close>

theorem no_sound_on_first_tick_counterexample:
  "sound_alarm_time alarm_machine = Some 100 \<and>
   Alarm_State_tick idle_env 101 alarm_machine = alarm_machine \<and>
   Ev_play_file \<notin> set (trace (Alarm_State_tick idle_env 101 alarm_machine))"
  by (simp add: fixture_defs Alarm_State_tick_def alarm_interval_def change_to_state_fields)

section \<open>What the touch handlers act on\<close>

lemma touch_snd:
  "snd (Time_State_touch e t w m) = (t \<noteq> None)"
  "snd (Alarm_State_touch e t w m) = (t \<noteq> None)"
  "snd (Setting_State_touch e t w m) = (t \<noteq> None)"
  by (cases t; simp add: Time_State_touch_def Alarm_State_touch_def Setting_State_touch_def)+

lemma touch_dispatch_eq:
  "current_state m = Some s \<Longrightarrow>
   touch_dispatch e t m =
     Inr ((fst (case s of
                  Time \<Rightarrow> Time_State_touch e t (touched m) m
                | Mugsy \<Rightarrow> Time_State_touch e t (touched m) m
                | Alarm \<Rightarrow> Alarm_State_touch e t (touched m) m
                | Settings \<Rightarrow> Setting_State_touch e t (touched m) m))\<lparr>touched := (t \<noteq> None)\<rparr>)"
  by (cases s) (simp_all add: touch_dispatch_def case_prod_beta touch_snd)




text \<open>
  Claim C9, as the code has it. In the settings state, with the alarm enabled, take a
  sample outside the regions of the three buttons (they are tested first). With no
  previous sample kept, the sample is kept and nothing else changes. With a previous
  sample kept: if the sample lies in the hours zone, the hour goes up by one modulo 24
  when its y is smaller than the kept y, down by one modulo 24 when it is larger, and
  stays when it is equal; if it lies in the minutes zone and not in the hours zone (the
  column x = 120 belongs to both, and the hours zone is tested first), the minute does
  the same modulo 60.
\<close>

theorem Setting_State_touch_drag:
  assumes "alarm_enabled m"
    and "\<not> touch_in_button p button_on"
    and "\<not> touch_in_button p button_return"
    and "\<not> touch_in_button p button_off"
  shows "snd (Setting_State_touch e (Some p) w m) \<and>
    (previous_touch m = None \<longrightarrow>
       fst (Setting_State_touch e (Some p) w m) = m\<lparr>previous_touch := Some p\<rparr>) \<and>
    (\<forall>q. previous_touch m = Some q \<and> touch_in_button p button_hours \<longrightarrow>
       fst (Setting_State_touch e (Some p) w m) =
         m\<lparr>alarm_hour :=
             if fst (snd p) < fst (snd q) then (alarm_hour m + 1) mod 24
             else if fst (snd p) > fst (snd q) then (alarm_hour m - 1) mod 24
             else alarm_hour m\<rparr>) \<and>
    (\<forall>q. previous_touch m = Some q \<and> touch_in_button p button_minutes \<and>
          \<not> touch_in_button p button_hours \<longrightarrow>
       fst (Setting_State_touch e (Some p) w m) =
         m\<lparr>alarm_minute :=
             if fst (snd p) < fst (snd q) then (alarm_minute m + 1) mod 60
             else if fst (snd p) > fst (snd q) then (alarm_minute m - 1) mod 60
             else alarm_minute m\<rparr>)"
  using assms by (auto simp: Setting_State_touch_def)

text \<open>The example of the specification at its two ends: upwards 59 wraps to 0, downwards
  0 wraps to 59, and an unchanged y changes nothing.\<close>

theorem Setting_State_touch_drag_witness:
  "alarm_minute (fst (Setting_State_touch idle_env (Some (60, 90, 5000)) True dragging_machine))
     = 0 \<and>
   alarm_minute (fst (Setting_State_touch idle_env (Some (60, 110, 5000)) True
      (dragging_machine\<lparr>alarm_minute := 0\<rparr>))) = 59 \<and>
   alarm_minute (fst (Setting_State_touch idle_env (Some (60, 100, 5000)) True dragging_machine))
     = 59"
  using Setting_State_touch_drag [of dragging_machine "(60, 90, 5000)" idle_env True]
    Setting_State_touch_drag [of "dragging_machine\<lparr>alarm_minute := 0\<rparr>" "(60, 110, 5000)"
      idle_env True]
    Setting_State_touch_drag [of dragging_machine "(60, 100, 5000)" idle_env True]
  by (simp add: dragging_machine_fields settings_buttons)

text \<open>A sample in the column x = 120 lies in the minutes zone, and above the kept sample;
  the minute stays at 30 and the hour moves from 23 to 0.\<close>

theorem zone_overlap_counterexample:
  "alarm_enabled (dragging_machine\<lparr>alarm_minute := 30\<rparr>) \<and>
   previous_touch (dragging_machine\<lparr>alarm_minute := 30\<rparr>) = Some (60, 100, 5000) \<and>
   touch_in_button (120, 90, 5000) button_minutes \<and>
   alarm_minute (fst (Setting_State_touch idle_env (Some (120, 90, 5000)) True
      (dragging_machine\<lparr>alarm_minute := 30\<rparr>))) = 30 \<and>
   alarm_hour (dragging_machine\<lparr>alarm_minute := 30\<rparr>) = 23 \<and>
   alarm_hour (fst (Setting_State_touch idle_env (Some (120, 90, 5000)) True
      (dragging_machine\<lparr>alarm_minute := 30\<rparr>))) = 0"
  by (simp add: dragging_machine_fields settings_buttons Setting_State_touch_def)

section \<open>Calls of \<^verbatim>\<open>change_to_state\<close> in one pass of the loop\<close>

lemma transitions_first_button_hit:
  "transitions (first_button_hit e p bs m) \<le> Suc (transitions m)"
  by (induction bs) (auto simp: transitions_change_to_state)

lemma first_button_hit_last:
  "transitions (first_button_hit e p bs m) \<noteq> transitions m \<Longrightarrow>
     \<exists>s. first_button_hit e p bs m = change_to_state e s m"
  by (induction bs) (auto split: if_splits)

lemma first_button_hit_snooze_time:
  "snooze_time (first_button_hit e p bs m) = snooze_time m"
  by (induction bs) (auto simp: change_to_state_fields)

lemma touch_dispatch_transitions:
  assumes "touch_dispatch e t m = Inr m'"
  shows "transitions m' \<le> Suc (transitions m)"
proof -
  from assms obtain s where s: "current_state m = Some s"
    by (auto simp: touch_dispatch_def split: option.splits)
  have time: "transitions (fst (Time_State_touch e t w m)) \<le> Suc (transitions m)" for w
    using transitions_first_button_hit [of e _ time_buttons m]
    by (simp add: Time_State_touch_def split: option.splits)
  have alarm: "transitions (fst (Alarm_State_touch e t w m)) \<le> Suc (transitions m)" for w
    by (simp add: Alarm_State_touch_def transitions_change_to_state transitions_simps
        split: option.splits)
  have settings: "transitions (fst (Setting_State_touch e t w m)) \<le> Suc (transitions m)" for w
    by (simp add: Setting_State_touch_def transitions_change_to_state transitions_simps
        split: option.splits)
  show ?thesis
    using assms s time [of "touched m"] alarm [of "touched m"] settings [of "touched m"]
    by (cases s) (auto simp: touch_dispatch_def transitions_simps split: prod.splits)
qed

lemma tick_dispatch_transitions:
  assumes "tick_dispatch e now m = Inr m'"
  shows "transitions m' \<le> Suc (transitions m)"
proof -
  from assms obtain s where s: "current_state m = Some s"
    by (auto simp: tick_dispatch_def split: option.splits)
  show ?thesis
  proof (cases s)
    case Time
    with assms s show ?thesis
      by (simp add: tick_dispatch_def Time_State_tick_transitions)
  next
    case Mugsy
    with assms s show ?thesis
      by (auto simp: tick_dispatch_def Mugsy_State_tick_def transitions_change_to_state)
  next
    case Alarm
    with assms s show ?thesis
      by (auto simp: tick_dispatch_def Alarm_State_tick_def transitions_change_to_state
          transitions_simps split: option.splits if_splits)
  next
    case Settings
    with assms s show ?thesis
      by (auto simp: tick_dispatch_def Setting_State_tick_def)
  qed
qed

lemma tick_dispatch_last:
  assumes "tick_dispatch e now m = Inr m'" and "transitions m' \<noteq> transitions m"
  shows "\<exists>s mid. m' = change_to_state e s mid \<and> transitions mid = transitions m"
proof -
  from assms obtain s where s: "current_state m = Some s"
    by (auto simp: tick_dispatch_def split: option.splits)
  show ?thesis
  proof (cases s)
    case Time
    with assms s Time_State_tick_last [of e now m m'] show ?thesis
      by (auto simp: tick_dispatch_def)
  next
    case Mugsy
    with assms s show ?thesis
      by (auto simp: tick_dispatch_def Mugsy_State_tick_def)
  next
    case Alarm
    have sn: "transitions (m\<lparr>snooze_time := Some now\<rparr>) = transitions m"
      by (simp add: transitions_simps)
    show ?thesis
    proof (cases "snooze_button_value e")
      case True
      with Alarm assms s show ?thesis
        by (auto simp: tick_dispatch_def Alarm_State_tick_def transitions_simps
            split: option.splits if_splits)
    next
      case False
      with Alarm assms(1) s
      have "m' = change_to_state e Time (m\<lparr>snooze_time := Some now\<rparr>)"
        by (simp add: tick_dispatch_def Alarm_State_tick_def)
      with sn show ?thesis by blast
    qed
  next
    case Settings
    with assms s show ?thesis
      by (auto simp: tick_dispatch_def Setting_State_tick_def)
  qed
qed

lemma Time_State_touch_last:
  assumes "transitions (fst (Time_State_touch e t w m)) \<noteq> transitions m"
  shows "\<exists>s mid. fst (Time_State_touch e t w m) = change_to_state e s mid \<and>
           transitions mid = transitions m"
proof -
  from assms obtain p where t: "t = Some p" and w: "\<not> w"
    by (cases t; cases w) (auto simp: Time_State_touch_def)
  then have eq: "fst (Time_State_touch e t w m) = first_button_hit e p time_buttons m"
    by (simp add: Time_State_touch_def)
  with assms first_button_hit_last [of e p time_buttons m] show ?thesis
    by auto
qed

lemma Alarm_State_touch_last:
  assumes "transitions (fst (Alarm_State_touch e t w m)) \<noteq> transitions m"
  shows "\<exists>s mid. fst (Alarm_State_touch e t w m) = change_to_state e s mid \<and>
           transitions mid = transitions m"
proof -
  have sn: "transitions (m\<lparr>snooze_time := None\<rparr>) = transitions m"
    by (simp add: transitions_simps)
  from assms have "fst (Alarm_State_touch e t w m)
      = change_to_state e Time (m\<lparr>snooze_time := None\<rparr>)"
    by (cases t; cases w) (auto simp: Alarm_State_touch_def)
  with sn show ?thesis by blast
qed

lemma Setting_State_touch_last:
  assumes moved: "transitions (fst (Setting_State_touch e t w m)) \<noteq> transitions m"
  shows "\<exists>s mid. fst (Setting_State_touch e t w m) = change_to_state e s mid \<and>
           transitions mid = transitions m"
proof (cases t)
  case None
  with moved show ?thesis by (simp add: Setting_State_touch_def transitions_simps)
next
  case (Some p)
  show ?thesis
  proof (cases "\<not> touch_in_button p button_on \<and> touch_in_button p button_return")
    case True
    then have "fst (Setting_State_touch e t w m) = change_to_state e Time m"
      by (simp add: Some Setting_State_touch_def)
    then show ?thesis by blast
  next
    case False
    then have "transitions (fst (Setting_State_touch e t w m)) = transitions m"
      by (auto simp add: Some Setting_State_touch_def transitions_simps split: option.splits)
    with moved show ?thesis by simp
  qed
qed

lemma touch_dispatch_last:
  assumes "touch_dispatch e t m = Inr m'" and "transitions m' \<noteq> transitions m"
  shows "\<exists>s mid. m' = (change_to_state e s mid)\<lparr>touched := (t \<noteq> None)\<rparr> \<and>
           transitions mid = transitions m"
proof -
  from assms obtain s where s: "current_state m = Some s"
    by (auto simp: touch_dispatch_def split: option.splits)
  define h where "h = fst (case s of
                  Time \<Rightarrow> Time_State_touch e t (touched m) m
                | Mugsy \<Rightarrow> Time_State_touch e t (touched m) m
                | Alarm \<Rightarrow> Alarm_State_touch e t (touched m) m
                | Settings \<Rightarrow> Setting_State_touch e t (touched m) m)"
  from assms(1) touch_dispatch_eq [OF s, of e t]
  have m': "m' = h\<lparr>touched := (t \<noteq> None)\<rparr>" by (simp add: h_def)
  with assms(2) have moved: "transitions h \<noteq> transitions m"
    by (simp add: transitions_simps)
  have "\<exists>s' mid. h = change_to_state e s' mid \<and> transitions mid = transitions m"
    using moved Time_State_touch_last [of e t "touched m" m]
      Alarm_State_touch_last [of e t "touched m" m]
      Setting_State_touch_last [of e t "touched m" m]
    unfolding h_def by (cases s) simp_all
  with m' show ?thesis by blast
qed

text \<open>
  Claim C5, as the code has it. The touch dispatch of a pass calls \<^verbatim>\<open>change_to_state\<close>
  at most once and so does the tick dispatch, which runs on the state the touch
  dispatch has left; a pass of the loop therefore makes at most two transitions. A
  handler that calls \<^verbatim>\<open>change_to_state\<close> does nothing to the machine afterwards: what it
  returns is the machine as that call left it (the loop then stores the result of the
  touch handler in \<^verbatim>\<open>touched\<close>).
\<close>

theorem transitions_per_pass:
  "(touch_dispatch e t m = Inr m1 \<longrightarrow>
      transitions m1 \<le> transitions m + 1 \<and>
      (transitions m1 \<noteq> transitions m \<longrightarrow>
         (\<exists>s mid. m1 = (change_to_state e s mid)\<lparr>touched := (t \<noteq> None)\<rparr> \<and>
            transitions mid = transitions m))) \<and>
   (tick_dispatch e now m = Inr m2 \<longrightarrow>
      transitions m2 \<le> transitions m + 1 \<and>
      (transitions m2 \<noteq> transitions m \<longrightarrow>
         (\<exists>s mid. m2 = change_to_state e s mid \<and> transitions mid = transitions m))) \<and>
   (loop_iteration i m = Inr m3 \<longrightarrow> transitions m3 \<le> transitions m + 2)"
proof (intro conjI impI)
  assume "touch_dispatch e t m = Inr m1"
  then show "transitions m1 \<le> transitions m + 1"
    using touch_dispatch_transitions by fastforce
next
  assume "touch_dispatch e t m = Inr m1" and "transitions m1 \<noteq> transitions m"
  then show "\<exists>s mid. m1 = (change_to_state e s mid)\<lparr>touched := (t \<noteq> None)\<rparr> \<and>
      transitions mid = transitions m"
    by (rule touch_dispatch_last)
next
  assume "tick_dispatch e now m = Inr m2"
  then show "transitions m2 \<le> transitions m + 1"
    using tick_dispatch_transitions by fastforce
next
  assume "tick_dispatch e now m = Inr m2" and "transitions m2 \<noteq> transitions m"
  then show "\<exists>s mid. m2 = change_to_state e s mid \<and> transitions mid = transitions m"
    by (rule tick_dispatch_last)
next
  assume it: "loop_iteration i m = Inr m3"
  then obtain mid where a: "touch_dispatch (touch_env i) (touch_sample i) m = Inr mid"
    and b: "tick_dispatch (tick_env i) (now_reading i) mid = Inr m3"
    by (auto simp: loop_iteration_def split: sum.splits)
  from touch_dispatch_transitions [OF a] tick_dispatch_transitions [OF b]
  show "transitions m3 \<le> transitions m + 2" by simp
qed

theorem transitions_per_pass_witness:
  "transitions (projr (loop_iteration mugsy_pass clock_machine)) \<le> transitions clock_machine + 2 \<and>
   transitions (projr (tick_dispatch idle_env 60 clock_machine)) \<le> transitions clock_machine + 1"
  using transitions_per_pass [where i = mugsy_pass and m = clock_machine
      and ?m3.0 = "projr (loop_iteration mugsy_pass clock_machine)"
      and e = idle_env and now = 60 and ?m2.0 = "projr (tick_dispatch idle_env 60 clock_machine)"]
  by (simp add: loop_iteration_def mugsy_pass_def touch_dispatch_def tick_dispatch_def
      Time_State_touch_def time_buttons_def mk_button_def Mugsy_State_tick_def fixture_defs
      change_to_state_fields tick_defs cancel_snooze_def
      snooze_elapsed_def gate_open_def adjust_backlight_fields log_event_def truthy_def)

text \<open>One pass from the clock screen with a fresh touch on its second button: the touch
  handler goes to the action-trigger state and the tick of that state goes back, two
  transitions in the same pass.\<close>

theorem two_transitions_counterexample:
  "loop_iteration mugsy_pass clock_machine \<noteq> Inl Uncaught_Exception \<and>
   loop_iteration mugsy_pass clock_machine \<noteq> Inl AttributeError \<and>
   transitions (projr (loop_iteration mugsy_pass clock_machine)) = transitions clock_machine + 2 \<and>
   new_events clock_machine (projr (loop_iteration mugsy_pass clock_machine))
     = [Ev_change_to_state Mugsy, Ev_exit Time, Ev_enter Mugsy,
        Ev_change_to_state Time, Ev_exit Mugsy, Ev_enter Time]"
  by (simp add: loop_iteration_def mugsy_pass_def touch_dispatch_def tick_dispatch_def
      Time_State_touch_def time_buttons_def mk_button_def Mugsy_State_tick_def fixture_defs
      change_to_state_fields transitions_def new_events_def)

section \<open>Where \<^verbatim>\<open>snooze_time\<close> changes\<close>

lemma touch_snooze_time:
  "snooze_time (fst (Time_State_touch e t w m)) = snooze_time m"
  "snooze_time (fst (Setting_State_touch e t w m)) = snooze_time m"
  "fst (Alarm_State_touch e t w m) =
     (if t \<noteq> None \<and> \<not> w then change_to_state e Time (m\<lparr>snooze_time := None\<rparr>) else m)"
  by (cases t; simp add: Time_State_touch_def Setting_State_touch_def Alarm_State_touch_def
        first_button_hit_snooze_time change_to_state_fields split: option.splits)+

lemma touch_dispatch_snooze_exact:
  assumes "current_state m = Some s"
  shows "\<exists>m2. touch_dispatch e t m = Inr m2 \<and>
      snooze_time m2 =
        (if s = Alarm \<and> t \<noteq> None \<and> \<not> touched m then None else snooze_time m) \<and>
      (s = Alarm \<and> t \<noteq> None \<and> \<not> touched m \<longrightarrow> current_state m2 = Some Time)"
  using touch_dispatch_eq [OF assms, of e t]
  by (cases s) (auto simp: touch_snooze_time change_to_state_fields)

lemma tick_dispatch_snooze_exact:
  assumes "current_state m = Some s" and "s \<noteq> Time"
  shows "\<exists>m1. tick_dispatch e now m = Inr m1 \<and>
      snooze_time m1 =
        (if s = Alarm \<and> \<not> snooze_button_value e then Some now else snooze_time m) \<and>
      (s = Alarm \<and> \<not> snooze_button_value e \<longrightarrow> current_state m1 = Some Time)"
  using assms
  by (cases s; cases "snooze_button_value e"; cases "sound_alarm_time m")
     (auto simp: tick_dispatch_def Mugsy_State_tick_def Alarm_State_tick_def
       Setting_State_tick_def change_to_state_fields log_event_def)

text \<open>
  Claim C2, as the code has it. A touch dispatch clears \<^verbatim>\<open>snooze_time\<close> exactly when it
  is a fresh touch in the alarm state (which also goes to the clock state), and leaves
  it as it is in every other case. A tick of the alarm state sets it to \<open>now\<close> exactly
  when the button is pushed (and then goes to the clock state); the ticks of the
  action-trigger and settings states leave it as it is. A tick of the clock state
  clears it exactly when the button is pushed and leaves it as it is otherwise; in
  particular the tick that finds the snooze interval elapsed goes to the alarm state
  with \<^verbatim>\<open>snooze_time\<close> still set. Nothing ties a set \<^verbatim>\<open>snooze_time\<close> to the clock and
  alarm states: it stays set through the other states.
\<close>

theorem snooze_time_changes:
  assumes "current_state m = Some s"
  shows "(\<exists>m2. touch_dispatch e t m = Inr m2 \<and>
       snooze_time m2 =
         (if s = Alarm \<and> t \<noteq> None \<and> \<not> touched m then None else snooze_time m) \<and>
       (s = Alarm \<and> t \<noteq> None \<and> \<not> touched m \<longrightarrow> current_state m2 = Some Time)) \<and>
    (s \<noteq> Time \<longrightarrow>
       (\<exists>m1. tick_dispatch e now m = Inr m1 \<and>
          snooze_time m1 =
            (if s = Alarm \<and> \<not> snooze_button_value e then Some now else snooze_time m) \<and>
          (s = Alarm \<and> \<not> snooze_button_value e \<longrightarrow> current_state m1 = Some Time))) \<and>
    (s = Time \<and>
     (gate_open (refresh_time m) now 3600 \<longrightarrow> get_local_time_outcome e \<noteq> Raises_Other) \<and>
     (gate_open (weather_refresh m) now 600 \<longrightarrow> fetch_outcome e \<noteq> Raises_Other) \<longrightarrow>
       (\<exists>m1. tick_dispatch e now m = Inr m1 \<and>
          snooze_time m1 = (if snooze_button_value e then snooze_time m else None))) \<and>
    (s = Time \<and> tick_dispatch e now m = Inr m3 \<longrightarrow>
       snooze_time m3 = (if snooze_button_value e then snooze_time m else None)) \<and>
    (s = Time \<and> snooze_button_value e \<and> snooze_elapsed now m \<longrightarrow>
       tick_dispatch e now m = Inr (change_to_state e Alarm m) \<and>
       snooze_time (change_to_state e Alarm m) = snooze_time m \<and>
       current_state (change_to_state e Alarm m) = Some Alarm)"
proof -
  note c1 = touch_dispatch_snooze_exact [OF assms, of e t]
  have c2: "s \<noteq> Time \<longrightarrow>
       (\<exists>m1. tick_dispatch e now m = Inr m1 \<and>
          snooze_time m1 =
            (if s = Alarm \<and> \<not> snooze_button_value e then Some now else snooze_time m) \<and>
          (s = Alarm \<and> \<not> snooze_button_value e \<longrightarrow> current_state m1 = Some Time))"
    using tick_dispatch_snooze_exact [OF assms, of e now] by blast
  have c4: "s = Time \<and> tick_dispatch e now m = Inr m3 \<longrightarrow>
       snooze_time m3 = (if snooze_button_value e then snooze_time m else None)"
    using assms Time_State_tick_snooze_time [of e now m m3]
    by (auto simp: tick_dispatch_def)
  have c3: "s = Time \<and>
     (gate_open (refresh_time m) now 3600 \<longrightarrow> get_local_time_outcome e \<noteq> Raises_Other) \<and>
     (gate_open (weather_refresh m) now 600 \<longrightarrow> fetch_outcome e \<noteq> Raises_Other) \<longrightarrow>
       (\<exists>m1. tick_dispatch e now m = Inr m1 \<and>
          snooze_time m1 = (if snooze_button_value e then snooze_time m else None))"
  proof
    assume h: "s = Time \<and>
     (gate_open (refresh_time m) now 3600 \<longrightarrow> get_local_time_outcome e \<noteq> Raises_Other) \<and>
     (gate_open (weather_refresh m) now 600 \<longrightarrow> fetch_outcome e \<noteq> Raises_Other)"
    then obtain m1 where t1: "Time_State_tick e now m = Inr m1"
      using Time_State_tick_returns [of m now e] by blast
    from Time_State_tick_snooze_time [OF t1] t1 h assms
    show "\<exists>m1. tick_dispatch e now m = Inr m1 \<and>
          snooze_time m1 = (if snooze_button_value e then snooze_time m else None)"
      by (simp add: tick_dispatch_def)
  qed
  have c5: "s = Time \<and> snooze_button_value e \<and> snooze_elapsed now m \<longrightarrow>
      tick_dispatch e now m = Inr (change_to_state e Alarm m) \<and>
      snooze_time (change_to_state e Alarm m) = snooze_time m \<and>
      current_state (change_to_state e Alarm m) = Some Alarm"
    using assms Time_State_tick_elapsed [of e now m]
    by (simp add: tick_dispatch_def change_to_state_fields)
  show ?thesis
    by (rule conjI [OF c1 conjI [OF c2 conjI [OF c3 conjI [OF c4 c5]]]])
qed

theorem snooze_time_changes_witness:
  "snooze_time (projr (tick_dispatch pushed_env 100 alarm_machine)) = Some 100 \<and>
   snooze_time (projr (tick_dispatch pushed_env 200 snoozed_machine)) = None \<and>
   snooze_time (projr (touch_dispatch idle_env (Some held_touch)
      (alarm_machine\<lparr>snooze_time := Some 100\<rparr>))) = None \<and>
   tick_dispatch idle_env 700 snoozed_machine
     = Inr (change_to_state idle_env Alarm snoozed_machine) \<and>
   snooze_time (change_to_state idle_env Alarm snoozed_machine) = Some 100"
proof -
  have pb: "\<not> snooze_button_value pushed_env" "snooze_button_value idle_env"
      "get_local_time_outcome pushed_env \<noteq> Raises_Other"
      "fetch_outcome pushed_env \<noteq> Raises_Other"
    by (simp_all add: pushed_env_def idle_env_def)
  have el: "snooze_elapsed 700 snoozed_machine"
    by (simp add: snooze_elapsed_def snooze_interval_def snoozed_machine_fields)
  have a: "current_state (alarm_machine\<lparr>snooze_time := Some 100\<rparr>) = Some Alarm"
      "\<not> touched (alarm_machine\<lparr>snooze_time := Some 100\<rparr>)"
    by (simp_all add: alarm_machine_fields)
  from snooze_time_changes [OF alarm_machine_fields(1), of pushed_env None 100 alarm_machine] pb
  have w1: "snooze_time (projr (tick_dispatch pushed_env 100 alarm_machine)) = Some 100"
    by auto
  from snooze_time_changes [OF snoozed_machine_fields(1), of pushed_env None 200 snoozed_machine] pb
  have w2: "snooze_time (projr (tick_dispatch pushed_env 200 snoozed_machine)) = None"
    by auto
  from snooze_time_changes [OF a(1), of idle_env "Some held_touch" 0
      "alarm_machine\<lparr>snooze_time := Some 100\<rparr>"] a(2)
  have w3: "snooze_time (projr (touch_dispatch idle_env (Some held_touch)
      (alarm_machine\<lparr>snooze_time := Some 100\<rparr>))) = None"
    by auto
  from snooze_time_changes [OF snoozed_machine_fields(1), of idle_env None 700 snoozed_machine]
    el pb
  have w4: "tick_dispatch idle_env 700 snoozed_machine
     = Inr (change_to_state idle_env Alarm snoozed_machine) \<and>
     snooze_time (change_to_state idle_env Alarm snoozed_machine) = Some 100"
    by (simp add: snoozed_machine_fields)
  from w1 w2 w3 w4 show ?thesis by simp
qed

text \<open>The alarm was snoozed at 100. The tick of the clock state at 700 finds the interval
  elapsed and goes to the alarm state with \<^verbatim>\<open>snooze_time\<close> still 100; and a touch on the
  settings button during the snooze enters the settings state with \<^verbatim>\<open>snooze_time\<close> set.\<close>

theorem snooze_kept_counterexample:
  "current_state snoozed_machine = Some Time \<and> snooze_time snoozed_machine = Some 100 \<and>
   current_state (projr (tick_dispatch idle_env 700 snoozed_machine)) = Some Alarm \<and>
   snooze_time (projr (tick_dispatch idle_env 700 snoozed_machine)) = Some 100 \<and>
   current_state (projr (touch_dispatch idle_env (Some held_touch) snoozed_machine))
     = Some Settings \<and>
   snooze_time (projr (touch_dispatch idle_env (Some held_touch) snoozed_machine)) = Some 100"
  by (simp add: snoozed_machine_fields tick_dispatch_def Time_State_tick_def cancel_snooze_def
      snooze_elapsed_def snooze_interval_def change_to_state_fields idle_env_def
      touch_dispatch_def Time_State_touch_def time_buttons_def mk_button_def held_touch_def
      Alarm_State_tick_def alarm_machine_def clock_machine_fields pushed_env_def
      snoozed_machine_def)

section \<open>The snooze round trip\<close>

lemma Time_State_tick_snoozing:
  assumes "snooze_button_value e" and "snooze_time m = Some t" and "t \<noteq> 0"
    and "current_state m = Some Time"
    and "get_local_time_outcome e \<noteq> Raises_Other" and "fetch_outcome e \<noteq> Raises_Other"
  shows "\<exists>m'. Time_State_tick e now m = Inr m' \<and> snooze_time m' = Some t \<and>
           current_state m' = Some (if now - t \<ge> 600 then Alarm else Time)"
proof (cases "now - t \<ge> 600")
  case True
  with assms have "snooze_elapsed now m"
    by (simp add: snooze_elapsed_def snooze_interval_def)
  with assms(1,2) True Time_State_tick_elapsed [of e now m] show ?thesis
    by (simp add: change_to_state_fields)
next
  case False
  with assms have ne: "\<not> snooze_elapsed now (cancel_snooze e m)"
    by (simp add: snooze_elapsed_def snooze_interval_def cancel_snooze_def)
  let ?m2 = "adjust_backlight_based_on_light False e (cancel_snooze e m)"
  from query_returns(1) [OF assms(5)] obtain m3 where a: "query_online_time e now ?m2 = Inr m3"
    by blast
  from query_returns(2) [OF assms(6)] obtain m4 where b: "query_weather e now m3 = Inr m4"
    by blast
  from ne a b have tick: "Time_State_tick e now m = Inr (update_the_time e now m4)"
    by (simp add: Time_State_tick_def Let_def)
  from query_fields(1) [OF a] query_fields(2) [OF b] assms(1,2,4)
  have m4: "snooze_time m4 = Some t" "current_state m4 = Some Time"
    by (simp_all add: adjust_backlight_fields cancel_snooze_def)
  from m4 assms(3) False tick show ?thesis
    by (simp add: update_the_time_snooze_time update_the_time_snoozing)
qed

lemma loop_iteration_snoozing:
  assumes "undisturbed i" and "snooze_time m = Some t" and "t \<noteq> 0"
    and "current_state m = Some Time"
  shows "\<exists>m'. loop_iteration i m = Inr m' \<and> snooze_time m' = Some t \<and>
           current_state m' = Some (if now_reading i - t \<ge> 600 then Alarm else Time)"
proof -
  from assms(1,4) have td: "touch_dispatch (touch_env i) (touch_sample i) m
      = Inr (m\<lparr>touched := False\<rparr>)"
    by (simp add: undisturbed_def touch_dispatch_def Time_State_touch_def)
  from assms
  have "\<exists>m'. Time_State_tick (tick_env i) (now_reading i) (m\<lparr>touched := False\<rparr>) = Inr m' \<and>
      snooze_time m' = Some t \<and>
      current_state m' = Some (if now_reading i - t \<ge> 600 then Alarm else Time)"
    by (intro Time_State_tick_snoozing) (simp_all add: undisturbed_def)
  with td assms(4) show ?thesis
    by (simp add: loop_iteration_def tick_dispatch_def)
qed

lemma main_loop_snoozing:
  assumes "\<forall>i \<in> set passes. undisturbed i \<and> now_reading i - t < 600"
    and "snooze_time m = Some t" and "t \<noteq> 0" and "current_state m = Some Time"
  shows "\<exists>m'. main_loop passes m = Inr m' \<and> snooze_time m' = Some t \<and>
           current_state m' = Some Time"
  using assms
proof (induction passes arbitrary: m)
  case Nil
  then show ?case by simp
next
  case (Cons i passes)
  from Cons.prems have "undisturbed i" and early: "now_reading i - t < 600"
    by simp_all
  from loop_iteration_snoozing [OF this(1) Cons.prems(2,3,4)] early
  obtain m1 where m1: "loop_iteration i m = Inr m1" "snooze_time m1 = Some t"
      "current_state m1 = Some Time"
    by auto
  from Cons.prems(1) have "\<forall>i \<in> set passes. undisturbed i \<and> now_reading i - t < 600"
    by simp
  from Cons.IH [OF this m1(2) Cons.prems(3) m1(3)] m1(1) show ?case
    by simp
qed

lemma main_loop_append:
  "main_loop (xs @ ys) m =
     (case main_loop xs m of Inl x \<Rightarrow> Inl x | Inr m' \<Rightarrow> main_loop ys m')"
  by (induction xs arbitrary: m) (auto split: sum.splits)

text \<open>
  Claim C3. Let the button be pushed on a tick of the alarm state at time \<open>t\<close> (a clock
  reading other than zero). Then \<^verbatim>\<open>snooze_time\<close> is \<open>t\<close>, the machine is in the clock state,
  and leaving the alarm state has armed the alarm. Let the loop then make any number of
  passes without touch, with the button released and without an uncaught exception,
  all earlier than \<open>t + 600\<close>: the machine stays in the clock state. On the first such
  pass at \<open>t + 600\<close> or later the machine is back in the alarm state.
\<close>

theorem snooze_round_trip:
  assumes "current_state m = Some Alarm" and "\<not> snooze_button_value e" and "t \<noteq> 0"
    and "\<forall>i \<in> set passes. undisturbed i \<and> now_reading i - t < 600"
    and "undisturbed j" and "now_reading j - t \<ge> 600"
  shows "snooze_time (Alarm_State_tick e t m) = Some t \<and>
    current_state (Alarm_State_tick e t m) = Some Time \<and>
    alarm_armed (Alarm_State_tick e t m) \<and>
    (\<exists>m1 m2. main_loop passes (Alarm_State_tick e t m) = Inr m1 \<and> current_state m1 = Some Time \<and>
       loop_iteration j m1 = Inr m2 \<and> current_state m2 = Some Alarm \<and>
       main_loop (passes @ [j]) (Alarm_State_tick e t m) = Inr m2)"
proof -
  let ?m0 = "Alarm_State_tick e t m"
  from assms(1,2,3) have m0: "snooze_time ?m0 = Some t" "current_state ?m0 = Some Time"
      "alarm_armed ?m0"
    by (simp_all add: Alarm_State_tick_def change_to_state_fields truthy_def)
  from main_loop_snoozing [OF assms(4) m0(1) assms(3) m0(2)]
  obtain m1 where m1: "main_loop passes ?m0 = Inr m1" "snooze_time m1 = Some t"
      "current_state m1 = Some Time"
    by auto
  from loop_iteration_snoozing [OF assms(5) m1(2) assms(3) m1(3)] assms(6)
  obtain m2 where m2: "loop_iteration j m1 = Inr m2" "current_state m2 = Some Alarm"
    by auto
  from m1(1) m2(1) have "main_loop (passes @ [j]) ?m0 = Inr m2"
    by (simp add: main_loop_append)
  with m0 m1 m2 show ?thesis by blast
qed

text \<open>Snoozed at 100: passes at 400 and 699 stay in the clock state, the pass at 700
  sounds the alarm again.\<close>

theorem snooze_round_trip_witness:
  "snooze_time snoozed_machine = Some 100 \<and> current_state snoozed_machine = Some Time \<and>
   alarm_armed snoozed_machine \<and>
   current_state (projr (main_loop [quiet_pass 400, quiet_pass 699] snoozed_machine))
     = Some Time \<and>
   current_state (projr (main_loop ([quiet_pass 400, quiet_pass 699] @ [quiet_pass 700])
      snoozed_machine)) = Some Alarm"
proof -
  have q: "undisturbed (quiet_pass x)" for x
    by (simp add: undisturbed_def quiet_pass_def idle_env_def)
  have nr: "now_reading (quiet_pass x) = x" for x
    by (simp add: quiet_pass_def)
  have cs: "current_state alarm_machine = Some Alarm"
    by (simp add: alarm_machine_def change_to_state_fields)
  have pb: "\<not> snooze_button_value pushed_env"
    by (simp add: pushed_env_def idle_env_def)
  have early: "\<forall>i \<in> set [quiet_pass 400, quiet_pass 699].
      undisturbed i \<and> now_reading i - 100 < 600"
    by (simp add: q nr)
  have late: "now_reading (quiet_pass 700) - 100 \<ge> 600"
    by (simp add: nr)
  from snooze_round_trip [OF cs pb _ early q late]
  show ?thesis
    unfolding snoozed_machine_def by auto
qed

end
